theory Spec2Isabelle
  imports Main "HOL-Library.Sublist"
begin

section \<open>Data model\<close>

text \<open>
  The data source reads a handful of properties from JSON objects it does not construct
  itself. A property the code compares with \<open>===\<close> / \<open>!==\<close> is kept as a JavaScript
  value, so that \<open>undefined\<close>, \<open>null\<close>, a number and a string stay distinct, as strict
  equality has them.
\<close>

datatype jsval = JUndefined | JNull | JBool bool | JNum int | JStr string

subsection \<open>types.ts\<close>

datatype FormatTypeValue = TIMESERIES | TABLE

text \<open>
  \<open>IgniteQuery extends DataQuery\<close>: \<open>refId\<close> comes from the host's \<open>DataQuery\<close>; an optional
  property (\<open>cacheName?\<close>, \<open>timeColumn?\<close>, \<open>query?\<close>) is \<open>None\<close> when it is \<open>undefined\<close>.
  \<open>format\<close> is declared mandatory, but \<open>query\<close> tests it against \<open>undefined\<close>, so it is
  optional here as well.
\<close>

record DataQuery =
  refId :: string

record IgniteQuery = DataQuery +
  cacheName :: "string option"
  format :: "FormatTypeValue option"
  timeColumn :: "string option"
  query :: "string option"

subsection \<open>The \<open>DataSource\<close> class: the objects a request resolves to\<close>

text \<open>
  The execution endpoint's payload: \<open>result.response.fieldsMetadata\<close> (of each entry the
  code reads \<open>fieldName\<close> and \<open>fieldTypeName\<close>) and \<open>result.response.items\<close>, an array of
  rows, each row an array of values.
\<close>

record FieldMetadata =
  fieldName :: string
  fieldTypeName :: string

record QueryPayload =
  fieldsMetadata :: "FieldMetadata list"
  items :: "jsval list list"

text \<open>
  \<open>_get\<close> returns \<open>Record<string, any>\<close>. \<open>query\<close> reads \<open>successStatus\<close>, \<open>error\<close> and
  \<open>response\<close> from the resolved object itself; \<open>testDatasource\<close> reads \<open>data\<close> from it and
  \<open>error\<close>, \<open>successStatus\<close> from that. An absent property reads \<open>undefined\<close>
  (\<open>JUndefined\<close>, \<open>None\<close>).
\<close>

record Envelope =
  successStatus :: jsval
  error :: jsval
  response :: "QueryPayload option"

record FetchResult = Envelope +
  data :: "Envelope option"

text \<open>
  What a \<open>throw\<close> or a rejected promise carries: a string (the source throws string
  literals), or an object, of which only the \<open>message\<close> property is ever read.
\<close>

datatype thrown = ThrownString string | ThrownError jsval

fun messageOf :: "thrown \<Rightarrow> jsval" where
  "messageOf (ThrownString s) = JUndefined"
| "messageOf (ThrownError m) = m"

text \<open>
  The field types of the host library; \<open>getFields\<close> produces the first three, the other
  two can only come from the library's own guess for a field it adds.
\<close>

datatype FieldType =
  FieldType_boolean | FieldType_number | FieldType_string | FieldType_time | FieldType_other

record Field =
  name :: string
  type :: FieldType

text \<open>
  The environment of the class: the language builtin \<open>encodeURIComponent\<close>, the host's
  \<open>getBackendSrv().fetch\<close> (the settlement of the \<open>k\<close>-th request issued, for its URL), the
  message text the engine gives the \<open>TypeError\<close> of a property read on \<open>undefined\<close>, and
  three things of the host library \<open>@grafana/data\<close> that its frames use: the parser it
  applies to a string stored under a field of a given non-string type, the type it guesses
  for a field from a value, and the value it fills a new column with for the rows that
  are already there.
\<close>

record Runtime =
  encodeURIComponent :: "string \<Rightarrow> string"
  fetch :: "nat \<Rightarrow> string \<Rightarrow> thrown + FetchResult"
  typeErrorMessage :: string
  parseString :: "FieldType \<Rightarrow> string \<Rightarrow> jsval"
  guessFieldTypeFromValue :: "jsval \<Rightarrow> FieldType"
  MISSING_VALUE :: jsval

text \<open>The instance: \<open>instanceSettings.url\<close>, which the host may leave \<open>undefined\<close>.\<close>

record DataSource =
  url :: "string option"

definition PAGE_SIZE :: nat where
  "PAGE_SIZE = 1024"

subsection \<open>String helpers of the language\<close>

text \<open>String concatenation and template literals turn \<open>undefined\<close> into its name.\<close>

fun jsToString :: "string option \<Rightarrow> string" where
  "jsToString None = ''undefined''"
| "jsToString (Some s) = s"

definition digitChar :: "nat \<Rightarrow> char" where
  "digitChar d = char_of (of_char CHR ''0'' + d)"

fun decimal :: "nat \<Rightarrow> string" where
  "decimal n = (if n < 10 then [digitChar n] else decimal (n div 10) @ [digitChar (n mod 10)])"

declare decimal.simps [simp del]

text \<open>
  \<open>String.prototype.replace\<close> with a string pattern: only the first occurrence, scanning
  from the left, is replaced.
\<close>

fun replaceFirst :: "string \<Rightarrow> string \<Rightarrow> string \<Rightarrow> string" where
  "replaceFirst pat rep [] = (if pat = [] then rep else [])"
| "replaceFirst pat rep (c # cs) =
     (if prefix pat (c # cs) then rep @ drop (length pat) (c # cs)
      else c # replaceFirst pat rep cs)"

text \<open>
  For stating where a replacement happens: the pattern occurs in \<open>s\<close> at position \<open>j\<close>; it
  occurs there and at no earlier position; it occurs nowhere.
\<close>

definition occursAt :: "string \<Rightarrow> string \<Rightarrow> nat \<Rightarrow> bool" where
  "occursAt pat s j \<longleftrightarrow> prefix pat (drop j s)"

definition firstOccurrence :: "string \<Rightarrow> string \<Rightarrow> nat \<Rightarrow> bool" where
  "firstOccurrence pat s j \<longleftrightarrow>
     occursAt pat s j \<and> list_all (\<lambda>i. \<not> occursAt pat s i) [0..<j]"

definition noOccurrence :: "string \<Rightarrow> string \<Rightarrow> bool" where
  "noOccurrence pat s \<longleftrightarrow> list_all (\<lambda>i. \<not> occursAt pat s i) [0..<length s]"

text \<open>
  The standard \<open>encodeURIComponent\<close>, on a string given by its UTF-8 bytes: every byte is
  written as \<open>%\<close> and two upper-case hexadecimal digits, except the unreserved characters
  (letters, digits and \<open>- _ . ! ~ * ' ( )\<close>), which stay as they are.
\<close>

definition uriUnreserved :: "char \<Rightarrow> bool" where
  "uriUnreserved c \<longleftrightarrow>
     c \<in> set ''ABCDEFGHIJKLMNOPQRSTUVWXYZabcdefghijklmnopqrstuvwxyz0123456789-_.!~*()'' \<or>
     c = CHR 0x27"

definition hexDigit :: "nat \<Rightarrow> char" where
  "hexDigit d = ''0123456789ABCDEF'' ! (d mod 16)"

definition percentEncode :: "char \<Rightarrow> string" where
  "percentEncode c =
     (if uriUnreserved c then [c]
      else [CHR ''%'', hexDigit ((of_char c :: nat) div 16), hexDigit ((of_char c :: nat) mod 16)])"

definition encodeURIComponent_utf8 :: "string \<Rightarrow> string" where
  "encodeURIComponent_utf8 s = concat (map percentEncode s)"

subsection \<open>Result frames\<close>

text \<open>
  Modelled from the spec: \<open>MutableDataFrame\<close> belongs to the host library
  \<open>@grafana/data\<close>, which is not part of the sources. It is the specification's
  ResultFrame: owned by a \<open>refId\<close>, an ordered sequence of field descriptors and an ordered
  sequence of rows, every row's arity being the number of fields, and a frame with no
  field having no row. (The properties \<open>refId\<close> and \<open>fields\<close> are \<open>frameRefId\<close> and
  \<open>frameFields\<close> here; \<open>frameRows\<close> are the rows, read across the columns.) The
  constructor and \<open>appendRow\<close> keep that invariant the way the library does:
  \<^item> \<open>addField\<close> gives a field without a name the name \<open>Field k\<close>, \<open>k\<close> its position counted
    from one, and fills the new column with the missing value for the rows already there;
  \<^item> the constructor adds the given fields one by one to an empty frame;
  \<^item> \<open>appendRow\<close> first adds a field \<open>Field i+1\<close>, of the type guessed from the value, for every
    value of the row beyond the fields; then it stores, under each field, the value of the
    row at that position, which is \<open>undefined\<close> beyond the end of the row, a string under a
    field that is not of type string being parsed first. Without any field there is
    nothing to store, and the frame stays as it is.
\<close>

record MutableDataFrame =
  frameRefId :: string
  frameFields :: "Field list"
  frameRows :: "jsval list list"

definition labelField :: "nat \<Rightarrow> Field \<Rightarrow> Field" where
  "labelField k f = f\<lparr>name := (if name f = [] then ''Field '' @ decimal (k + 1) else name f)\<rparr>"

definition addField :: "Runtime \<Rightarrow> MutableDataFrame \<Rightarrow> Field \<Rightarrow> MutableDataFrame" where
  "addField rt frame f =
     frame\<lparr>frameFields := frameFields frame @ [labelField (length (frameFields frame)) f],
            frameRows := map (\<lambda>r. r @ [MISSING_VALUE rt]) (frameRows frame)\<rparr>"

definition newFrame :: "Runtime \<Rightarrow> string \<Rightarrow> Field list \<Rightarrow> MutableDataFrame" where
  "newFrame rt r fs =
     foldl (addField rt) \<lparr>frameRefId = r, frameFields = [], frameRows = []\<rparr> fs"

definition rowValue :: "jsval list \<Rightarrow> nat \<Rightarrow> jsval" where
  "rowValue row i = (if i < length row then row ! i else JUndefined)"

definition storeValue :: "Runtime \<Rightarrow> Field \<Rightarrow> jsval \<Rightarrow> jsval" where
  "storeValue rt f v =
     (case v of
        JStr s \<Rightarrow> if type f \<noteq> FieldType_string then parseString rt (type f) s else v
      | _ \<Rightarrow> v)"

definition storeRow :: "Runtime \<Rightarrow> Field list \<Rightarrow> jsval list \<Rightarrow> jsval list" where
  "storeRow rt fs row = map (\<lambda>(i, f). storeValue rt f (rowValue row i)) (enumerate 0 fs)"

definition extraFields :: "Runtime \<Rightarrow> nat \<Rightarrow> jsval list \<Rightarrow> Field list" where
  "extraFields rt n row =
     map (\<lambda>i. \<lparr>name = ''Field '' @ decimal (i + 1),
                type = guessFieldTypeFromValue rt (rowValue row i)\<rparr>)
         [n..<length row]"

definition appendRow :: "Runtime \<Rightarrow> MutableDataFrame \<Rightarrow> jsval list \<Rightarrow> MutableDataFrame" where
  "appendRow rt frame row =
     (let widened = foldl (addField rt) frame (extraFields rt (length (frameFields frame)) row);
          fs = frameFields widened
      in if fs = [] then widened
         else widened\<lparr>frameRows := frameRows widened @ [storeRow rt fs row]\<rparr>)"

section \<open>STEP 1 of \<open>DataSource.query\<close>: the three filters\<close>

text \<open>
  \<open>cloneDeep(request.targets)\<close> is the identity on values; the three \<open>filter\<close> calls
  follow in the order of the source, each callback written with the source's tests.
\<close>

definition hasCacheName :: "IgniteQuery \<Rightarrow> bool" where
  "hasCacheName t =
     (if cacheName t = None \<or> cacheName t = Some [] then False else True)"

definition hasTimeColumn :: "IgniteQuery \<Rightarrow> bool" where
  "hasTimeColumn t =
     (case format t of
        None \<Rightarrow> False
      | Some f \<Rightarrow>
          if f = TIMESERIES
          then (if timeColumn t = None \<or> timeColumn t = Some [] then False else True)
          else True)"

definition hasQuery :: "IgniteQuery \<Rightarrow> bool" where
  "hasQuery t = (if query t = None \<or> query t = Some [] then False else True)"

definition validTargets :: "IgniteQuery list \<Rightarrow> IgniteQuery list" where
  "validTargets targets =
     (let filtered = filter hasCacheName targets;
          filtered = filter hasTimeColumn filtered;
          filtered = filter hasQuery filtered
      in filtered)"

text \<open>
  The validator as the specification words it: one predicate, the conjunction of the four
  required-field conditions, used to compare with \<open>validTargets\<close>.
\<close>

definition spec_wellFormed :: "IgniteQuery \<Rightarrow> bool" where
  "spec_wellFormed t \<longleftrightarrow>
     (cacheName t \<noteq> None \<and> cacheName t \<noteq> Some []) \<and>
     format t \<noteq> None \<and>
     (format t = Some TIMESERIES \<longrightarrow> timeColumn t \<noteq> None \<and> timeColumn t \<noteq> Some []) \<and>
     (query t \<noteq> None \<and> query t \<noteq> Some [])"

section \<open>\<open>getFields\<close>\<close>

text \<open>The \<open>switch\<close> on \<open>field.fieldTypeName\<close>, case by case in the order of the source.\<close>

definition fieldType :: "string \<Rightarrow> FieldType" where
  "fieldType tn =
     (if tn = ''java.lang.Boolean'' then FieldType_boolean
      else if tn = ''java.lang.Byte'' then FieldType_number
      else if tn = ''java.lang.Double'' then FieldType_number
      else if tn = ''java.lang.Float'' then FieldType_number
      else if tn = ''java.lang.Integer'' then FieldType_number
      else if tn = ''java.lang.Long'' then FieldType_number
      else if tn = ''java.lang.Short'' then FieldType_number
      else if tn = ''java.lang.String'' then FieldType_string
      else if tn = ''java.sql.Date'' then FieldType_string
      else if tn = ''java.sql.Time'' then FieldType_string
      else if tn = ''java.sql.Timestamp'' then FieldType_string
      else if tn = ''java.lang.UUID'' then FieldType_string
      else if tn = ''org.apache.ignite.lang.IgniteUuid'' then FieldType_string
      else FieldType_string)"

definition getFields :: "FieldMetadata list \<Rightarrow> Field list" where
  "getFields metadata =
     map (\<lambda>field. \<lparr>name = fieldName field, type = fieldType (fieldTypeName field)\<rparr>) metadata"

text \<open>
  The type inference table as the specification gives it: a finite table from source type
  tag to result type (boolean; byte, double, float, integer, long, short; string; date,
  time, timestamp; the two UUID flavors), and \<open>string\<close> for any tag not in the table.
\<close>

definition spec_typeTable :: "(string \<times> FieldType) list" where
  "spec_typeTable =
     [(''java.lang.Boolean'', FieldType_boolean),
      (''java.lang.Byte'', FieldType_number),
      (''java.lang.Double'', FieldType_number),
      (''java.lang.Float'', FieldType_number),
      (''java.lang.Integer'', FieldType_number),
      (''java.lang.Long'', FieldType_number),
      (''java.lang.Short'', FieldType_number),
      (''java.lang.String'', FieldType_string),
      (''java.sql.Date'', FieldType_string),
      (''java.sql.Time'', FieldType_string),
      (''java.sql.Timestamp'', FieldType_string),
      (''java.lang.UUID'', FieldType_string),
      (''org.apache.ignite.lang.IgniteUuid'', FieldType_string)]"

definition spec_inferredType :: "string \<Rightarrow> FieldType" where
  "spec_inferredType tn =
     (case map_of spec_typeTable tn of Some ty \<Rightarrow> ty | None \<Rightarrow> FieldType_string)"

section \<open>\<open>_get\<close> and \<open>Promise.all\<close>\<close>

text \<open>
  \<open>_get\<close> prefixes the instance URL and hands the request to \<open>fetch\<close>. The model returns
  the URL requested together with the settlement of the request, \<open>k\<close> being the number of
  requests issued before it.
\<close>

definition DataSource_get ::
  "DataSource \<Rightarrow> Runtime \<Rightarrow> nat \<Rightarrow> string \<Rightarrow> string \<times> (thrown + FetchResult)" where
  "DataSource_get ds rt k apiUrl =
     (let baseUrl = url ds;
          u = jsToString baseUrl @ apiUrl
      in (u, fetch rt k u))"

text \<open>
  \<open>Promise.all\<close>: the array of the values when every promise resolves, a rejection as soon
  as one rejects. Which rejection wins when several promises reject depends on timing in
  the source; the model takes the first in array order.
\<close>

fun Promise_all :: "(thrown + 'a) list \<Rightarrow> thrown + 'a list" where
  "Promise_all [] = Inr []"
| "Promise_all (Inl e # ps) = Inl e"
| "Promise_all (Inr v # ps) =
     (case Promise_all ps of Inl e \<Rightarrow> Inl e | Inr vs \<Rightarrow> Inr (v # vs))"

section \<open>STEP 3 of \<open>DataSource.query\<close>: one target\<close>

definition isError :: "FetchResult \<Rightarrow> bool" where
  "isError r \<longleftrightarrow> successStatus r \<noteq> JNum 0 \<or> error r \<noteq> JStr []"

text \<open>
  The callback given to \<open>then\<close>. Reading \<open>result.response.fieldsMetadata\<close> when
  \<open>result.response\<close> is \<open>undefined\<close> raises a \<open>TypeError\<close>; the error branch never reads it.
\<close>

definition toFrame :: "Runtime \<Rightarrow> IgniteQuery \<Rightarrow> FetchResult \<Rightarrow> thrown + MutableDataFrame" where
  "toFrame rt t result =
     (if successStatus result \<noteq> JNum 0 \<or> error result \<noteq> JStr []
      then Inr (newFrame rt (refId t) [])
      else
        (case response result of
           None \<Rightarrow> Inl (ThrownError (JStr (typeErrorMessage rt)))
         | Some payload \<Rightarrow>
             let metadata = fieldsMetadata payload;
                 frame = newFrame rt (refId t) (getFields metadata);
                 rows = items payload
             in Inr (foldl (appendRow rt) frame rows)))"

text \<open>\<open>encodeURIComponent(t.query || '').replace('%20', '+')\<close>\<close>

definition qryParameter :: "Runtime \<Rightarrow> IgniteQuery \<Rightarrow> string" where
  "qryParameter rt t =
     replaceFirst ''%20'' ''+''
       (encodeURIComponent rt (case query t of None \<Rightarrow> [] | Some q \<Rightarrow> q))"

text \<open>
  The callback of \<open>filtered.map\<close> at STEP 3. It builds the URL, issues the request and
  chains the \<open>then\<close> callback on it; its block body has no \<open>return\<close> statement, so the
  value it gives \<open>map\<close> is \<open>undefined\<close> (\<open>None\<close>). The result is the URL requested, the
  settlement of the chained promise, and the value returned.
\<close>

definition execTarget ::
  "DataSource \<Rightarrow> Runtime \<Rightarrow> nat \<Rightarrow> IgniteQuery \<Rightarrow>
     (string \<times> (thrown + MutableDataFrame)) \<times> MutableDataFrame option" where
  "execTarget ds rt k t =
     (let requestUrl = ''/ignite?cmd=qryfldexe&cacheName='' @ jsToString (cacheName t) @
                       ''&pageSize='' @ decimal PAGE_SIZE;
          qry = qryParameter rt t;
          requestUrl = requestUrl @ ''&qry='' @ qry;
          (sent, settled) = DataSource_get ds rt k requestUrl;
          chained = (case settled of Inl e \<Rightarrow> Inl e | Inr result \<Rightarrow> toFrame rt t result)
      in ((sent, chained), None))"

section \<open>\<open>DataSource.query\<close>\<close>

text \<open>
  One call of \<open>query\<close>: how the returned promise settles (a rejection, or the \<open>data\<close> array of
  the response, an entry being \<open>None\<close> when it is \<open>undefined\<close>), the URLs of the
  cache-existence checks and of the executions in the order issued, and the settlements of
  the promises chained per target.
\<close>

record QueryRun =
  outcome :: "thrown + MutableDataFrame option list"
  checkRequests :: "string list"
  execRequests :: "string list"
  chainedFrames :: "(thrown + MutableDataFrame) list"

definition NoValidTargets :: thrown where
  "NoValidTargets =
     ThrownString ''Please check your query configuration. No valid query targets found.''"

definition CacheNotFound :: thrown where
  "CacheNotFound = ThrownString ''At least one of the provided caches does not exist.''"

definition checkCaches ::
  "DataSource \<Rightarrow> Runtime \<Rightarrow> string option list \<Rightarrow> (string \<times> (thrown + FetchResult)) list" where
  "checkCaches ds rt caches =
     map (\<lambda>(k, c). let requestUrl = ''/ignite?cmd=size&cacheName='' @ jsToString c
                   in DataSource_get ds rt k requestUrl)
         (enumerate 0 caches)"

definition DataSource_query :: "DataSource \<Rightarrow> Runtime \<Rightarrow> IgniteQuery list \<Rightarrow> QueryRun" where
  "DataSource_query ds rt targets =
     (let filtered = validTargets targets in
      if length filtered = 0
      then \<lparr>outcome = Inl NoValidTargets, checkRequests = [], execRequests = [],
            chainedFrames = []\<rparr>
      else
        let caches = map cacheName filtered;
            checks = checkCaches ds rt caches
        in (case Promise_all (map snd checks) of
              Inl e \<Rightarrow>
                \<lparr>outcome = Inl e, checkRequests = map fst checks, execRequests = [],
                 chainedFrames = []\<rparr>
            | Inr responses \<Rightarrow>
                let errors = filter (\<lambda>r. successStatus r \<noteq> JNum 0 \<or> error r \<noteq> JStr []) responses
                in if length errors \<noteq> 0
                   then \<lparr>outcome = Inl CacheNotFound, checkRequests = map fst checks,
                         execRequests = [], chainedFrames = []\<rparr>
                   else
                     let promises = map (\<lambda>(k, t). execTarget ds rt k t)
                                        (enumerate (length caches) filtered)
                     in \<lparr>outcome = Inr (map snd promises),
                         checkRequests = map fst checks,
                         execRequests = map (fst \<circ> fst) promises,
                         chainedFrames = map (snd \<circ> fst) promises\<rparr>))"

text \<open>
  For stating properties of a run: the settlements of the cache-existence checks of a
  batch, in the order issued, and the specification's criterion for "the cache exists"
  (the request resolved, with \<open>successStatus == 0 && error == ''\<close>).
\<close>

definition checkSettlements ::
  "DataSource \<Rightarrow> Runtime \<Rightarrow> IgniteQuery list \<Rightarrow> (thrown + FetchResult) list" where
  "checkSettlements ds rt targets =
     map snd (checkCaches ds rt (map cacheName (validTargets targets)))"

fun passes :: "thrown + FetchResult \<Rightarrow> bool" where
  "passes (Inl e) = False"
| "passes (Inr r) = (successStatus r = JNum 0 \<and> error r = JStr [])"

fun resolved :: "thrown + FetchResult \<Rightarrow> bool" where
  "resolved (Inl e) = False"
| "resolved (Inr r) = True"

section \<open>\<open>DataSource.testDatasource\<close>\<close>

record TestResult =
  status :: string
  message :: jsval

text \<open>
  The body of the \<open>try\<close> block either returns the success result or throws; the \<open>catch\<close>
  block turns whatever was thrown into a failure result with \<open>err.message\<close>. The test of
  \<open>this.jsonData.userAuth\<close> guards an empty block and is left out.
\<close>

definition tryVersion :: "DataSource \<Rightarrow> Runtime \<Rightarrow> thrown + TestResult" where
  "tryVersion ds rt =
     (let requestUrl = ''/ignite?cmd=version'';
          (sent, settled) = DataSource_get ds rt 0 requestUrl
      in case settled of
           Inl e \<Rightarrow> Inl e
         | Inr res \<Rightarrow>
             (case data res of
                None \<Rightarrow> Inl (ThrownError (JStr (typeErrorMessage rt)))
              | Some d \<Rightarrow>
                  if error d = JNull \<or> successStatus d = JNum 0
                  then Inr \<lparr>status = ''success'',
                            message = JStr ''Successfully connected to Apache Ignite.''\<rparr>
                  else Inl (ThrownString ''Failed to connect to Apache Ignite.'')))"

definition testDatasource :: "DataSource \<Rightarrow> Runtime \<Rightarrow> TestResult" where
  "testDatasource ds rt =
     (case tryVersion ds rt of
        Inr r \<Rightarrow> r
      | Inl err \<Rightarrow> \<lparr>status = ''failure'', message = messageOf err\<rparr>)"

section \<open>Concrete scenarios\<close>

text \<open>Targets: the scenarios of the specification, and one more time-series target.\<close>

definition personTarget :: IgniteQuery where
  "personTarget = \<lparr>refId = ''A'', cacheName = Some ''person'', format = Some TABLE,
                    timeColumn = None, query = Some ''select * from person''\<rparr>"

definition unnamedTarget :: IgniteQuery where
  "unnamedTarget = \<lparr>refId = ''B'', cacheName = Some [], format = Some TABLE,
                     timeColumn = None, query = Some ''select 1''\<rparr>"

definition untimedTarget :: IgniteQuery where
  "untimedTarget = \<lparr>refId = ''C'', cacheName = Some ''person'', format = Some TIMESERIES,
                     timeColumn = None, query = Some ''select * from person''\<rparr>"

definition seriesTarget :: IgniteQuery where
  "seriesTarget = \<lparr>refId = ''D'', cacheName = Some ''person'', format = Some TIMESERIES,
                    timeColumn = Some ''TS'', query = Some ''select TS, AGE from person''\<rparr>"

definition cityTarget :: IgniteQuery where
  "cityTarget = \<lparr>refId = ''E'', cacheName = Some ''city'', format = Some TABLE,
                  timeColumn = None, query = Some ''select NAME from city''\<rparr>"

definition countTarget :: IgniteQuery where
  "countTarget = \<lparr>refId = ''F'', cacheName = Some ''person'', format = Some TABLE,
                   timeColumn = None, query = Some ''select(1)''\<rparr>"

text \<open>Responses.\<close>

definition plain :: "jsval \<Rightarrow> jsval \<Rightarrow> QueryPayload option \<Rightarrow> FetchResult" where
  "plain st er pl = \<lparr>successStatus = st, error = er, response = pl, data = None\<rparr>"

definition cacheExists :: FetchResult where
  "cacheExists = plain (JNum 0) (JStr []) None"

definition cacheMissing :: FetchResult where
  "cacheMissing = plain (JNum 1) (JStr []) None"

definition alicePayload :: QueryPayload where
  "alicePayload =
     \<lparr>fieldsMetadata = [\<lparr>fieldName = ''NAME'', fieldTypeName = ''java.lang.String''\<rparr>],
      items = [[JStr ''Alice'']]\<rparr>"

definition raggedPayload :: QueryPayload where
  "raggedPayload =
     \<lparr>fieldsMetadata = [\<lparr>fieldName = ''NAME'', fieldTypeName = ''java.lang.String''\<rparr>],
      items = [[JStr ''Alice'', JNum 30]]\<rparr>"

definition versionReply :: "jsval \<Rightarrow> jsval \<Rightarrow> FetchResult" where
  "versionReply st er =
     \<lparr>successStatus = JUndefined, error = JUndefined, response = None,
      data = Some \<lparr>successStatus = st, error = er, response = None\<rparr>\<rparr>"

definition aliceReply :: FetchResult where
  "aliceReply = plain (JNum 0) (JStr []) (Some alicePayload)"

definition failedReply :: FetchResult where
  "failedReply = plain (JNum 1) (JStr ''Failed to execute query'') (Some alicePayload)"

definition raggedReply :: FetchResult where
  "raggedReply = plain (JNum 0) (JStr []) (Some raggedPayload)"

definition networkError :: thrown where
  "networkError = ThrownError (JStr ''Network Error'')"

definition shortPayload :: QueryPayload where
  "shortPayload =
     \<lparr>fieldsMetadata = [\<lparr>fieldName = ''NAME'', fieldTypeName = ''java.lang.String''\<rparr>,
                        \<lparr>fieldName = ''AGE'', fieldTypeName = ''java.lang.Integer''\<rparr>],
      items = [[JStr ''Alice'', JNum 30], [JStr ''Bob'']]\<rparr>"

definition shortReply :: FetchResult where
  "shortReply = plain (JNum 0) (JStr []) (Some shortPayload)"

text \<open>The type guessed from a value: by the kind of the value.\<close>

fun guessByKind :: "jsval \<Rightarrow> FieldType" where
  "guessByKind (JNum n) = FieldType_number"
| "guessByKind (JStr s) = FieldType_string"
| "guessByKind (JBool b) = FieldType_boolean"
| "guessByKind v = FieldType_other"

text \<open>
  A runtime with the standard encoder, whose \<open>k\<close>-th request settles as the \<open>k\<close>-th entry of
  a script (and is rejected past its end). No payload of the scenarios holds a string
  under a field that is not of type string, so the parser is never consulted; it is left
  as the identity on strings.
\<close>

definition scripted :: "(thrown + FetchResult) list \<Rightarrow> Runtime" where
  "scripted script =
     \<lparr>encodeURIComponent = encodeURIComponent_utf8,
      fetch = (\<lambda>k u. if k < length script then script ! k else Inl networkError),
      typeErrorMessage = ''Cannot read properties of undefined'',
      parseString = (\<lambda>ty s. JStr s),
      guessFieldTypeFromValue = guessByKind,
      MISSING_VALUE = JNull\<rparr>"

definition ignite :: DataSource where
  "ignite = \<lparr>url = Some ''http://localhost:8080''\<rparr>"

section \<open>Validator\<close>

lemma hasCacheName_iff: "hasCacheName t \<longleftrightarrow> cacheName t \<noteq> None \<and> cacheName t \<noteq> Some []"
  by (simp add: hasCacheName_def)

lemma hasQuery_iff: "hasQuery t \<longleftrightarrow> query t \<noteq> None \<and> query t \<noteq> Some []"
  by (simp add: hasQuery_def)

lemma hasTimeColumn_iff:
  "hasTimeColumn t \<longleftrightarrow>
     format t \<noteq> None \<and>
     (format t = Some TIMESERIES \<longrightarrow> timeColumn t \<noteq> None \<and> timeColumn t \<noteq> Some [])"
proof (cases "format t")
  case None
  then show ?thesis by (simp add: hasTimeColumn_def)
next
  case (Some f)
  then show ?thesis
    by (cases f; cases "timeColumn t") (simp_all add: hasTimeColumn_def)
qed

lemma spec_wellFormed_filters:
  "spec_wellFormed t \<longleftrightarrow> hasCacheName t \<and> hasTimeColumn t \<and> hasQuery t"
  unfolding spec_wellFormed_def hasCacheName_iff hasTimeColumn_iff hasQuery_iff
  by blast

lemma validTargets_filter: "validTargets targets = filter spec_wellFormed targets"
proof -
  have "validTargets targets =
          filter (\<lambda>t. hasCacheName t \<and> hasTimeColumn t \<and> hasQuery t) targets"
    by (simp add: validTargets_def Let_def conj_commute conj_left_commute)
  then show ?thesis
    by (simp add: spec_wellFormed_filters [abs_def])
qed

text \<open>
  C3. For every ordered sequence of query targets, the output of the validator is exactly
  the stable filter of the sequence by the four required-field predicates (cache name defined
  and non-empty; format defined; time column defined and non-empty when the format is
  TIMESERIES; query defined and non-empty): the targets kept are those satisfying all four,
  and their relative order is that of the input.
\<close>

theorem C3_validator_stable_filter:
  "validTargets targets = filter spec_wellFormed targets \<and>
   subseq (validTargets targets) targets \<and>
   set (validTargets targets) = {t \<in> set targets. spec_wellFormed t}"
proof -
  have eq: "validTargets targets = filter spec_wellFormed targets"
    by (rule validTargets_filter)
  have "subseq (filter spec_wellFormed targets) targets"
    by simp
  with eq show ?thesis by simp
qed

theorem C3_validator_witness:
  "validTargets [personTarget, unnamedTarget, untimedTarget, seriesTarget] =
     [personTarget, seriesTarget]"
  using C3_validator_stable_filter [of "[personTarget, unnamedTarget, untimedTarget, seriesTarget]"]
  by (simp add: spec_wellFormed_def personTarget_def unnamedTarget_def untimedTarget_def
        seriesTarget_def)

section \<open>Auxiliary facts about a run\<close>

lemma map_enumerate_snd: "map (\<lambda>(k, x). f x) (enumerate n xs) = map f xs"
  by (induction xs arbitrary: n) simp_all

lemma length_checkCaches: "length (checkCaches ds rt caches) = length caches"
  by (simp add: checkCaches_def)

lemma map_fst_checkCaches:
  "map fst (checkCaches ds rt caches) =
     map (\<lambda>c. jsToString (url ds) @ ''/ignite?cmd=size&cacheName='' @ jsToString c) caches"
proof -
  have "map fst (checkCaches ds rt caches) =
          map (\<lambda>(k, c). jsToString (url ds) @ ''/ignite?cmd=size&cacheName='' @ jsToString c)
              (enumerate 0 caches)"
    by (simp add: checkCaches_def DataSource_get_def Let_def split_def)
  then show ?thesis
    by (simp only: map_enumerate_snd)
qed

lemma Promise_all_Inr_iff: "Promise_all ps = Inr vs \<longleftrightarrow> ps = map Inr vs"
proof (induction ps arbitrary: vs)
  case Nil
  then show ?case by auto
next
  case (Cons p ps)
  show ?case
  proof (cases p)
    case (Inl e)
    then show ?thesis by (cases vs) auto
  next
    case (Inr v)
    with Cons show ?thesis
      by (cases vs; cases "Promise_all ps") auto
  qed
qed

lemma Promise_all_Inl: "Promise_all ps = Inl e \<Longrightarrow> Inl e \<in> set ps"
proof (induction ps)
  case Nil
  then show ?case by simp
next
  case (Cons p ps)
  then show ?case
    by (cases p) (auto split: sum.splits)
qed

lemma Promise_all_passes:
  "list_all passes ps \<Longrightarrow> \<exists>rs. Promise_all ps = Inr rs \<and> ps = map Inr rs \<and> filter isError rs = []"
proof (induction ps)
  case Nil
  then show ?case by simp
next
  case (Cons p ps)
  then obtain rs where rs: "Promise_all ps = Inr rs" "ps = map Inr rs" "filter isError rs = []"
    by auto
  from Cons.prems obtain r where r: "p = Inr r" "\<not> isError r"
    by (cases p) (auto simp: isError_def)
  with rs have "Promise_all (p # ps) = Inr (r # rs) \<and> p # ps = map Inr (r # rs)
      \<and> filter isError (r # rs) = []"
    by simp
  then show ?case by (rule exI)
qed


lemma query_no_targets:
  "validTargets targets = [] \<Longrightarrow>
   DataSource_query ds rt targets =
     \<lparr>outcome = Inl NoValidTargets, checkRequests = [], execRequests = [], chainedFrames = []\<rparr>"
  by (simp add: DataSource_query_def)

lemma query_check_rejected:
  assumes "validTargets targets \<noteq> []"
    and "Promise_all (checkSettlements ds rt targets) = Inl e"
  shows "DataSource_query ds rt targets =
     \<lparr>outcome = Inl e,
      checkRequests = map fst (checkCaches ds rt (map cacheName (validTargets targets))),
      execRequests = [], chainedFrames = []\<rparr>"
  using assms by (simp add: DataSource_query_def checkSettlements_def Let_def)

lemma query_cache_missing:
  assumes "validTargets targets \<noteq> []"
    and "Promise_all (checkSettlements ds rt targets) = Inr rs"
    and "filter isError rs \<noteq> []"
  shows "DataSource_query ds rt targets =
     \<lparr>outcome = Inl CacheNotFound,
      checkRequests = map fst (checkCaches ds rt (map cacheName (validTargets targets))),
      execRequests = [], chainedFrames = []\<rparr>"
  using assms by (simp add: DataSource_query_def checkSettlements_def Let_def isError_def [abs_def])

lemma query_step3:
  assumes "validTargets targets \<noteq> []"
    and "Promise_all (checkSettlements ds rt targets) = Inr rs"
    and "filter isError rs = []"
  shows "DataSource_query ds rt targets =
     (let filtered = validTargets targets;
          promises = map (\<lambda>(k, t). execTarget ds rt k t) (enumerate (length filtered) filtered)
      in \<lparr>outcome = Inr (map snd promises),
          checkRequests = map fst (checkCaches ds rt (map cacheName filtered)),
          execRequests = map (fst \<circ> fst) promises,
          chainedFrames = map (snd \<circ> fst) promises\<rparr>)"
  using assms by (simp add: DataSource_query_def checkSettlements_def Let_def isError_def [abs_def])

lemma checkRequests_query:
  assumes "validTargets targets \<noteq> []"
  shows "checkRequests (DataSource_query ds rt targets) =
           map fst (checkCaches ds rt (map cacheName (validTargets targets)))"
proof (cases "Promise_all (checkSettlements ds rt targets)")
  case (Inl e)
  with assms show ?thesis by (simp add: query_check_rejected)
next
  case (Inr rs)
  show ?thesis
  proof (cases "filter isError rs = []")
    case True
    with assms Inr show ?thesis by (simp add: query_step3 Let_def)
  next
    case False
    with assms Inr show ?thesis by (simp add: query_cache_missing)
  qed
qed

lemma snd_execTarget: "snd (execTarget ds rt k t) = None"
  by (simp add: execTarget_def Let_def split_def)

lemma decimal_PAGE_SIZE: "decimal PAGE_SIZE = ''1024''"
  unfolding PAGE_SIZE_def by code_simp

lemma sent_execTarget:
  "fst (fst (execTarget ds rt k t)) =
     jsToString (url ds) @ ''/ignite?cmd=qryfldexe&cacheName='' @ jsToString (cacheName t) @
     ''&pageSize=1024&qry='' @ qryParameter rt t"
  by (simp add: execTarget_def Let_def split_def DataSource_get_def decimal_PAGE_SIZE)

lemma chained_execTarget:
  "snd (fst (execTarget ds rt k t)) =
     (case fetch rt k (fst (fst (execTarget ds rt k t))) of
        Inl e \<Rightarrow> Inl e
      | Inr result \<Rightarrow> toFrame rt t result)"
  by (simp add: execTarget_def Let_def split_def DataSource_get_def)

lemmas frame_defs =
  newFrame_def addField_def labelField_def appendRow_def extraFields_def storeRow_def storeValue_def
  rowValue_def

lemma newFrame_empty:
  "newFrame rt r [] = \<lparr>frameRefId = r, frameFields = [], frameRows = []\<rparr>"
  by (simp add: newFrame_def)

lemma toFrame_error:
  "isError r \<Longrightarrow> toFrame rt t r = Inr \<lparr>frameRefId = refId t, frameFields = [], frameRows = []\<rparr>"
  by (simp add: toFrame_def isError_def newFrame_empty)

section \<open>No valid targets\<close>

text \<open>
  C4. For every request batch whose validated target sequence is empty, \<open>query\<close> fails with
  the NoValidTargets error, a thrown string with a fixed user-facing message, and performs
  no network activity: neither a cache-existence check nor an execution request is issued,
  and no frame is built.
\<close>

theorem C4_no_valid_targets:
  assumes "validTargets targets = []"
  shows "outcome (DataSource_query ds rt targets) =
           Inl (ThrownString
                  ''Please check your query configuration. No valid query targets found.'') \<and>
         checkRequests (DataSource_query ds rt targets) = [] \<and>
         execRequests (DataSource_query ds rt targets) = [] \<and>
         chainedFrames (DataSource_query ds rt targets) = []"
  using assms by (simp add: query_no_targets NoValidTargets_def)

theorem C4_no_valid_targets_witness:
  "validTargets [unnamedTarget, untimedTarget] = [] \<and>
   outcome (DataSource_query ignite (scripted []) [unnamedTarget, untimedTarget]) =
     Inl (ThrownString
            ''Please check your query configuration. No valid query targets found.'') \<and>
   checkRequests (DataSource_query ignite (scripted []) [unnamedTarget, untimedTarget]) = [] \<and>
   execRequests (DataSource_query ignite (scripted []) [unnamedTarget, untimedTarget]) = []"
proof -
  have h: "validTargets [unnamedTarget, untimedTarget] = []"
    by (simp add: validTargets_def hasCacheName_def hasTimeColumn_def hasQuery_def
          unnamedTarget_def untimedTarget_def)
  show ?thesis
    using h C4_no_valid_targets [OF h, of ignite "scripted []"] by simp
qed

section \<open>The cache-existence barrier\<close>

lemmas scenario_defs =
  personTarget_def unnamedTarget_def untimedTarget_def seriesTarget_def cityTarget_def
  countTarget_def
  plain_def cacheExists_def cacheMissing_def alicePayload_def raggedPayload_def
  aliceReply_def failedReply_def raggedReply_def shortPayload_def shortReply_def
  versionReply_def networkError_def scripted_def ignite_def

lemmas run_defs =
  DataSource_query_def checkSettlements_def checkCaches_def validTargets_def hasCacheName_def
  hasTimeColumn_def hasQuery_def DataSource_get_def enumerate_eq_zip Let_def

lemma passes_iff: "passes s \<longleftrightarrow> (\<exists>r. s = Inr r \<and> \<not> isError r)"
  by (cases s) (simp_all add: isError_def)

text \<open>
  C2, as amended. Whenever some cache-existence check of a batch does not pass (its response
  has \<open>successStatus != 0\<close> or \<open>error != ''\<close>, or its request is rejected), \<open>query\<close> fails
  and issues zero execution requests, so execution proceeds only when every check passes.
  The failure is the aggregate CacheNotFound error provided every check request resolved
  to a response; when a check request is rejected, \<open>Promise.all\<close> rejects and \<open>query\<close> fails
  with the rejection of a rejected check request instead.
\<close>

theorem C2_check_barrier:
  assumes "s \<in> set (checkSettlements ds rt targets)" and "\<not> passes s"
  shows "execRequests (DataSource_query ds rt targets) = [] \<and>
         chainedFrames (DataSource_query ds rt targets) = [] \<and>
         (\<exists>e. outcome (DataSource_query ds rt targets) = Inl e) \<and>
         (list_all resolved (checkSettlements ds rt targets) \<longrightarrow>
            outcome (DataSource_query ds rt targets) = Inl CacheNotFound) \<and>
         (\<not> list_all resolved (checkSettlements ds rt targets) \<longrightarrow>
            (\<exists>e. outcome (DataSource_query ds rt targets) = Inl e \<and>
                 Inl e \<in> set (checkSettlements ds rt targets)))"
proof -
  from assms(1) have nonempty: "validTargets targets \<noteq> []"
    by (auto simp: checkSettlements_def checkCaches_def)
  show ?thesis
  proof (cases "Promise_all (checkSettlements ds rt targets)")
    case (Inl e)
    then have mem: "Inl e \<in> set (checkSettlements ds rt targets)"
      by (rule Promise_all_Inl)
    moreover have "\<not> resolved (Inl e)"
      by simp
    ultimately have "\<not> list_all resolved (checkSettlements ds rt targets)"
      unfolding list_all_iff by blast
    moreover have "outcome (DataSource_query ds rt targets) = Inl e"
      using nonempty Inl by (simp add: query_check_rejected)
    moreover have "execRequests (DataSource_query ds rt targets) = []"
      and "chainedFrames (DataSource_query ds rt targets) = []"
      using nonempty Inl by (simp_all add: query_check_rejected)
    ultimately show ?thesis
      using mem by blast
  next
    case (Inr rs)
    then have eq: "checkSettlements ds rt targets = map Inr rs"
      by (simp add: Promise_all_Inr_iff)
    then have all: "list_all resolved (checkSettlements ds rt targets)"
      by (simp add: list_all_iff)
    from eq assms obtain r where "r \<in> set rs" "isError r"
      by (auto simp: passes_iff)
    then have "filter isError rs \<noteq> []"
      by (auto simp: filter_empty_conv)
    with nonempty Inr all show ?thesis
      by (simp add: query_cache_missing)
  qed
qed

text \<open>
  Two batches on the caches \<open>person\<close> and \<open>city\<close>. In the first both checks resolve and the
  one for \<open>city\<close> reports \<open>successStatus = 1\<close>: CacheNotFound. In the second the check for
  \<open>person\<close> reports \<open>successStatus = 1\<close> and the request for \<open>city\<close> is rejected: \<open>query\<close>
  fails with that rejection. No execution request is issued in either.
\<close>

theorem C2_check_barrier_witness:
  "Inr cacheMissing \<in> set (checkSettlements ignite (scripted [Inr cacheExists, Inr cacheMissing])
                              [personTarget, cityTarget]) \<and>
   \<not> passes (Inr cacheMissing) \<and>
   list_all resolved (checkSettlements ignite (scripted [Inr cacheExists, Inr cacheMissing])
                        [personTarget, cityTarget]) \<and>
   outcome (DataSource_query ignite (scripted [Inr cacheExists, Inr cacheMissing])
              [personTarget, cityTarget]) =
     Inl (ThrownString ''At least one of the provided caches does not exist.'') \<and>
   execRequests (DataSource_query ignite (scripted [Inr cacheExists, Inr cacheMissing])
                   [personTarget, cityTarget]) = [] \<and>
   Inr cacheMissing \<in> set (checkSettlements ignite (scripted [Inr cacheMissing, Inl networkError])
                              [personTarget, cityTarget]) \<and>
   \<not> list_all resolved (checkSettlements ignite (scripted [Inr cacheMissing, Inl networkError])
                          [personTarget, cityTarget]) \<and>
   outcome (DataSource_query ignite (scripted [Inr cacheMissing, Inl networkError])
              [personTarget, cityTarget]) = Inl networkError \<and>
   execRequests (DataSource_query ignite (scripted [Inr cacheMissing, Inl networkError])
                   [personTarget, cityTarget]) = []"
proof -
  let ?rt = "scripted [Inr cacheExists, Inr cacheMissing]"
  let ?rt' = "scripted [Inr cacheMissing, Inl networkError]"
  let ?ts = "[personTarget, cityTarget]"
  have bad: "\<not> passes (Inr cacheMissing)"
    by (simp add: scenario_defs)
  have cs: "checkSettlements ignite ?rt ?ts = [Inr cacheExists, Inr cacheMissing]"
    by (simp add: scenario_defs run_defs)
  have mem: "Inr cacheMissing \<in> set (checkSettlements ignite ?rt ?ts)"
    by (simp add: cs)
  have res: "list_all resolved (checkSettlements ignite ?rt ?ts)"
    by (simp add: cs)
  have first: "outcome (DataSource_query ignite ?rt ?ts) =
                 Inl (ThrownString ''At least one of the provided caches does not exist.'') \<and>
               execRequests (DataSource_query ignite ?rt ?ts) = []"
    using C2_check_barrier [OF mem bad] res by (simp add: CacheNotFound_def)
  have cs': "checkSettlements ignite ?rt' ?ts = [Inr cacheMissing, Inl networkError]"
    by (simp add: scenario_defs run_defs)
  have mem': "Inr cacheMissing \<in> set (checkSettlements ignite ?rt' ?ts)"
    by (simp add: cs')
  have res': "\<not> list_all resolved (checkSettlements ignite ?rt' ?ts)"
    by (simp add: cs')
  from C2_check_barrier [OF mem' bad] res'
  obtain e where e: "outcome (DataSource_query ignite ?rt' ?ts) = Inl e"
      "Inl e \<in> set (checkSettlements ignite ?rt' ?ts)"
    and none: "execRequests (DataSource_query ignite ?rt' ?ts) = []"
    by blast
  from e(2) have "e = networkError"
    by (simp add: cs')
  with e(1) none have second: "outcome (DataSource_query ignite ?rt' ?ts) = Inl networkError \<and>
               execRequests (DataSource_query ignite ?rt' ?ts) = []"
    by simp
  from mem bad res first mem' res' second show ?thesis
    by blast
qed

text \<open>
  The claim as written fails when a bad check response meets a rejected check request:
  the response for \<open>person\<close> has \<open>successStatus = 1\<close>, the request for \<open>city\<close> is rejected,
  and \<open>query\<close> fails with the rejection, not with CacheNotFound.
\<close>

theorem C2_rejected_check_counterexample:
  "Inr cacheMissing \<in> set (checkSettlements ignite (scripted [Inr cacheMissing, Inl networkError])
                              [personTarget, cityTarget]) \<and>
   isError cacheMissing \<and>
   outcome (DataSource_query ignite (scripted [Inr cacheMissing, Inl networkError])
              [personTarget, cityTarget]) = Inl networkError \<and>
   networkError \<noteq> CacheNotFound"
  by (simp add: scenario_defs run_defs isError_def CacheNotFound_def)

section \<open>Cache-existence checks issued\<close>

text \<open>
  C8, as amended. For every request batch that passes validation, \<open>query\<close> issues exactly one
  cache-existence check per validated target, in target order, each for that target's cache
  name. The cache names are not deduplicated: a name shared by several validated targets
  is checked once for each of them.
\<close>

theorem C8_one_check_per_target:
  assumes "validTargets targets \<noteq> []"
  shows "checkRequests (DataSource_query ds rt targets) =
           map (\<lambda>t. jsToString (url ds) @ ''/ignite?cmd=size&cacheName='' @
                     jsToString (cacheName t))
               (validTargets targets) \<and>
         length (checkRequests (DataSource_query ds rt targets)) = length (validTargets targets)"
  using assms by (simp add: checkRequests_query map_fst_checkCaches comp_def)

theorem C8_one_check_per_target_witness:
  "validTargets [personTarget, seriesTarget] \<noteq> [] \<and>
   checkRequests (DataSource_query ignite (scripted [Inr cacheExists, Inr cacheExists])
                    [personTarget, seriesTarget]) =
     [''http://localhost:8080/ignite?cmd=size&cacheName=person'',
      ''http://localhost:8080/ignite?cmd=size&cacheName=person'']"
proof -
  have v: "validTargets [personTarget, seriesTarget] = [personTarget, seriesTarget]"
    by (simp add: scenario_defs validTargets_def hasCacheName_def hasTimeColumn_def hasQuery_def)
  then have h: "validTargets [personTarget, seriesTarget] \<noteq> []"
    by simp
  show ?thesis
    using h C8_one_check_per_target [OF h, of ignite "scripted [Inr cacheExists, Inr cacheExists]"]
    by (simp add: v) (simp add: scenario_defs)
qed

text \<open>
  The claim as written asks for one check per distinct cache name. Two validated targets
  share the cache \<open>person\<close>, the only distinct name, and two checks are issued.
\<close>

theorem C8_shared_cache_counterexample:
  "remdups (map cacheName (validTargets [personTarget, seriesTarget])) = [Some ''person''] \<and>
   checkRequests (DataSource_query ignite (scripted [Inr cacheExists, Inr cacheExists])
                    [personTarget, seriesTarget]) =
     [''http://localhost:8080/ignite?cmd=size&cacheName=person'',
      ''http://localhost:8080/ignite?cmd=size&cacheName=person'']"
  by (simp add: scenario_defs run_defs)

section \<open>What \<open>query\<close> returns when every check passes\<close>

lemma snd_execTargets:
  "map (snd \<circ> (\<lambda>(k, t). execTarget ds rt k t)) (enumerate n xs) = replicate (length xs) None"
  by (induction xs arbitrary: n) (simp_all add: snd_execTarget)

text \<open>
  C1. The claim is that a batch with valid targets whose cache checks all succeed returns
  one ResultFrame per validated target, keyed by the target's \<open>refId\<close>, once every frame
  is ready. The code does not: the callback of \<open>filtered.map\<close> at STEP 3 has no \<open>return\<close>,
  so \<open>Promise.all\<close> is given an array of \<open>undefined\<close> and resolves to it. For every such
  batch the returned \<open>data\<close> holds \<open>undefined\<close> in the place of each target's frame, while
  one frame (or rejection) per target is produced by the chained callbacks that \<open>query\<close>
  drops.
\<close>

theorem C1_frames_not_returned:
  assumes "validTargets targets \<noteq> []"
    and "list_all passes (checkSettlements ds rt targets)"
  shows "outcome (DataSource_query ds rt targets) =
           Inr (replicate (length (validTargets targets)) None) \<and>
         length (chainedFrames (DataSource_query ds rt targets)) =
           length (validTargets targets)"
proof -
  from assms(2) obtain rs where rs: "Promise_all (checkSettlements ds rt targets) = Inr rs"
      "filter isError rs = []"
    using Promise_all_passes by blast
  with assms(1) show ?thesis
    by (simp add: query_step3 Let_def snd_execTargets)
qed

text \<open>
  The scenario of the specification: one target on the cache \<open>person\<close>, the check succeeds,
  the execution answers one row \<open>Alice\<close>. The frame is built, and \<open>undefined\<close> is returned.
\<close>

theorem C1_frames_not_returned_witness:
  "validTargets [personTarget] \<noteq> [] \<and>
   list_all passes
     (checkSettlements ignite (scripted [Inr cacheExists, Inr aliceReply]) [personTarget]) \<and>
   outcome (DataSource_query ignite (scripted [Inr cacheExists, Inr aliceReply]) [personTarget]) =
     Inr [None] \<and>
   chainedFrames (DataSource_query ignite (scripted [Inr cacheExists, Inr aliceReply])
                    [personTarget]) =
     [Inr \<lparr>frameRefId = ''A'',
            frameFields = [\<lparr>name = ''NAME'', type = FieldType_string\<rparr>],
            frameRows = [[JStr ''Alice'']]\<rparr>]"
proof -
  let ?rt = "scripted [Inr cacheExists, Inr aliceReply]"
  have v: "validTargets [personTarget] = [personTarget]"
    by (simp add: scenario_defs validTargets_def hasCacheName_def hasTimeColumn_def hasQuery_def)
  then have h1: "validTargets [personTarget] \<noteq> []"
    by simp
  have h2: "list_all passes (checkSettlements ignite ?rt [personTarget])"
    by (simp add: scenario_defs run_defs)
  have frames: "chainedFrames (DataSource_query ignite ?rt [personTarget]) =
     [Inr \<lparr>frameRefId = ''A'',
            frameFields = [\<lparr>name = ''NAME'', type = FieldType_string\<rparr>],
            frameRows = [[JStr ''Alice'']]\<rparr>]"
    by (simp add: scenario_defs run_defs execTarget_def toFrame_def getFields_def fieldType_def
          frame_defs)
  from C1_frames_not_returned [OF h1 h2]
  have "outcome (DataSource_query ignite ?rt [personTarget]) =
          Inr (replicate (length (validTargets [personTarget])) None)"
    by (rule conjunct1)
  then have "outcome (DataSource_query ignite ?rt [personTarget]) = Inr [None]"
    by (simp add: v)
  with h1 h2 frames show ?thesis
    by blast
qed

section \<open>Execution errors degrade to an empty frame\<close>

lemma checkCaches_fetch_upd:
  assumes "length caches \<le> m"
  shows "checkCaches ds (rt\<lparr>fetch := (fetch rt)(m := f)\<rparr>) caches = checkCaches ds rt caches"
  unfolding checkCaches_def
proof (rule map_cong [OF refl])
  fix p assume "p \<in> set (enumerate 0 caches)"
  then have "fst p < length caches"
    by (simp add: in_set_enumerate_eq)
  with assms have "fst p \<noteq> m"
    by simp
  then show "(case p of (k, c) \<Rightarrow>
                let requestUrl = ''/ignite?cmd=size&cacheName='' @ jsToString c
                in DataSource_get ds (rt\<lparr>fetch := (fetch rt)(m := f)\<rparr>) k requestUrl) =
             (case p of (k, c) \<Rightarrow>
                let requestUrl = ''/ignite?cmd=size&cacheName='' @ jsToString c
                in DataSource_get ds rt k requestUrl)"
    by (cases p) (simp add: DataSource_get_def)
qed

lemma addField_fetch_upd: "addField (rt\<lparr>fetch := g\<rparr>) = addField rt"
  by (intro ext) (simp add: addField_def)

lemma storeValue_fetch_upd: "storeValue (rt\<lparr>fetch := g\<rparr>) = storeValue rt"
  by (intro ext) (simp add: storeValue_def split: jsval.splits)

lemma storeRow_fetch_upd: "storeRow (rt\<lparr>fetch := g\<rparr>) = storeRow rt"
  by (intro ext) (simp add: storeRow_def storeValue_fetch_upd)

lemma extraFields_fetch_upd: "extraFields (rt\<lparr>fetch := g\<rparr>) = extraFields rt"
  by (intro ext) (simp add: extraFields_def)

lemma appendRow_fetch_upd: "appendRow (rt\<lparr>fetch := g\<rparr>) = appendRow rt"
  by (intro ext)
    (simp add: appendRow_def addField_fetch_upd extraFields_fetch_upd storeRow_fetch_upd
       Let_def)

lemma toFrame_fetch_upd: "toFrame (rt\<lparr>fetch := g\<rparr>) t x = toFrame rt t x"
  by (simp add: toFrame_def newFrame_def addField_fetch_upd appendRow_fetch_upd
        split: option.splits)

lemma qryParameter_fetch_upd: "qryParameter (rt\<lparr>fetch := g\<rparr>) t = qryParameter rt t"
  by (simp add: qryParameter_def)

lemma execTarget_fetch_upd:
  "snd (fst (execTarget ds (rt\<lparr>fetch := (fetch rt)(m := (\<lambda>u. Inr r))\<rparr>) k t)) =
     (if k = m then toFrame rt t r else snd (fst (execTarget ds rt k t)))"
  by (simp add: execTarget_def DataSource_get_def qryParameter_fetch_upd toFrame_fetch_upd
        Let_def split: sum.splits)

lemma chainedFrames_step3:
  assumes "validTargets targets \<noteq> []"
    and "list_all passes (checkSettlements ds rt targets)"
  shows "chainedFrames (DataSource_query ds rt targets) =
           map (\<lambda>(k, t). snd (fst (execTarget ds rt k t)))
               (enumerate (length (validTargets targets)) (validTargets targets))"
proof -
  from assms(2) obtain rs where rs: "Promise_all (checkSettlements ds rt targets) = Inr rs"
      "filter isError rs = []"
    using Promise_all_passes by blast
  with assms(1) show ?thesis
    by (simp add: query_step3 Let_def split_def comp_def)
qed

text \<open>
  C5. For every validated target whose execution response has \<open>successStatus != 0\<close> or
  \<open>error != ''\<close>, the frame the callback produces for that target has zero field
  descriptors and zero rows whatever the payload is, it is a value and not an exception,
  and the frames of the sibling targets are unaffected: replacing the response of the
  \<open>i\<close>-th execution request by an error response changes the \<open>i\<close>-th frame to the empty
  frame of that target and leaves every other frame as it was.
\<close>

theorem C5_error_degrades_to_empty_frame:
  assumes "list_all passes (checkSettlements ds rt targets)"
    and "i < length (validTargets targets)"
    and "isError r"
  shows "toFrame rt t r = Inr \<lparr>frameRefId = refId t, frameFields = [], frameRows = []\<rparr> \<and>
         chainedFrames
           (DataSource_query ds
              (rt\<lparr>fetch := (fetch rt)(length (validTargets targets) + i := (\<lambda>u. Inr r))\<rparr>)
              targets) =
           (chainedFrames (DataSource_query ds rt targets))
             [i := Inr \<lparr>frameRefId = refId (validTargets targets ! i),
                         frameFields = [], frameRows = []\<rparr>]"
proof
  show "toFrame rt t r = Inr \<lparr>frameRefId = refId t, frameFields = [], frameRows = []\<rparr>"
    using assms(3) by (rule toFrame_error)
next
  let ?vs = "validTargets targets"
  let ?n = "length ?vs"
  let ?rt' = "rt\<lparr>fetch := (fetch rt)(?n + i := (\<lambda>u. Inr r))\<rparr>"
  from assms(2) have nonempty: "?vs \<noteq> []"
    by auto
  have same: "checkSettlements ds ?rt' targets = checkSettlements ds rt targets"
    by (simp add: checkSettlements_def checkCaches_fetch_upd)
  with assms(1) have pass': "list_all passes (checkSettlements ds ?rt' targets)"
    by simp
  have new: "chainedFrames (DataSource_query ds ?rt' targets) =
               map (\<lambda>(k, t). snd (fst (execTarget ds ?rt' k t))) (enumerate ?n ?vs)"
    using nonempty pass' by (rule chainedFrames_step3)
  have old: "chainedFrames (DataSource_query ds rt targets) =
               map (\<lambda>(k, t). snd (fst (execTarget ds rt k t))) (enumerate ?n ?vs)"
    using nonempty assms(1) by (rule chainedFrames_step3)
  show "chainedFrames (DataSource_query ds ?rt' targets) =
          (chainedFrames (DataSource_query ds rt targets))
            [i := Inr \<lparr>frameRefId = refId (?vs ! i), frameFields = [], frameRows = []\<rparr>]"
    unfolding new old
  proof (rule nth_equalityI)
    show "length (map (\<lambda>(k, t). snd (fst (execTarget ds ?rt' k t))) (enumerate ?n ?vs)) =
          length ((map (\<lambda>(k, t). snd (fst (execTarget ds rt k t))) (enumerate ?n ?vs))
            [i := Inr \<lparr>frameRefId = refId (?vs ! i), frameFields = [], frameRows = []\<rparr>])"
      by simp
  next
    fix j assume "j < length (map (\<lambda>(k, t). snd (fst (execTarget ds ?rt' k t))) (enumerate ?n ?vs))"
    then have j: "j < ?n"
      by simp
    show "map (\<lambda>(k, t). snd (fst (execTarget ds ?rt' k t))) (enumerate ?n ?vs) ! j =
          (map (\<lambda>(k, t). snd (fst (execTarget ds rt k t))) (enumerate ?n ?vs))
            [i := Inr \<lparr>frameRefId = refId (?vs ! i), frameFields = [], frameRows = []\<rparr>] ! j"
    proof (cases "j = i")
      case True
      with j assms(3) show ?thesis
        by (simp add: nth_enumerate_eq execTarget_fetch_upd toFrame_error)
    next
      case False
      with j show ?thesis
        by (simp add: nth_enumerate_eq execTarget_fetch_upd)
    qed
  qed
qed

theorem C5_error_degrades_witness:
  "list_all passes
     (checkSettlements ignite
        (scripted [Inr cacheExists, Inr cacheExists, Inr aliceReply, Inr aliceReply])
        [personTarget, seriesTarget]) \<and>
   1 < length (validTargets [personTarget, seriesTarget]) \<and>
   isError failedReply \<and>
   chainedFrames
     (DataSource_query ignite
        ((scripted [Inr cacheExists, Inr cacheExists, Inr aliceReply, Inr aliceReply])
           \<lparr>fetch := (fetch (scripted [Inr cacheExists, Inr cacheExists, Inr aliceReply,
                                        Inr aliceReply]))
                        (3 := (\<lambda>u. Inr failedReply))\<rparr>)
        [personTarget, seriesTarget]) =
     [Inr \<lparr>frameRefId = ''A'',
            frameFields = [\<lparr>name = ''NAME'', type = FieldType_string\<rparr>],
            frameRows = [[JStr ''Alice'']]\<rparr>,
      Inr \<lparr>frameRefId = ''D'', frameFields = [], frameRows = []\<rparr>]"
proof -
  let ?rt = "scripted [Inr cacheExists, Inr cacheExists, Inr aliceReply, Inr aliceReply]"
  let ?ts = "[personTarget, seriesTarget]"
  have v: "validTargets ?ts = ?ts"
    by (simp add: scenario_defs validTargets_def hasCacheName_def hasTimeColumn_def hasQuery_def)
  have h1: "list_all passes (checkSettlements ignite ?rt ?ts)"
    by (simp add: scenario_defs run_defs)
  have h2: "1 < length (validTargets ?ts)"
    by (simp add: v)
  have h3: "isError failedReply"
    by (simp add: scenario_defs isError_def)
  have before: "chainedFrames (DataSource_query ignite ?rt ?ts) =
      [Inr \<lparr>frameRefId = ''A'',
             frameFields = [\<lparr>name = ''NAME'', type = FieldType_string\<rparr>],
             frameRows = [[JStr ''Alice'']]\<rparr>,
       Inr \<lparr>frameRefId = ''D'',
             frameFields = [\<lparr>name = ''NAME'', type = FieldType_string\<rparr>],
             frameRows = [[JStr ''Alice'']]\<rparr>]"
    by (simp add: scenario_defs run_defs execTarget_def toFrame_def getFields_def fieldType_def
          frame_defs)
  have d: "refId seriesTarget = ''D''"
    by (simp add: seriesTarget_def)
  show ?thesis
    using C5_error_degrades_to_empty_frame [OF h1 h2 h3, of personTarget] h1 h2 h3
    by (simp add: before d v eval_nat_numeral)
qed

section \<open>Field type inference\<close>

lemma fieldType_table: "fieldType tn = spec_inferredType tn"
  by (simp add: fieldType_def spec_inferredType_def spec_typeTable_def)

text \<open>
  C7. For every field-metadata entry, the inferred field type is the one of the inference
  table: boolean for \<open>java.lang.Boolean\<close>; number for the byte, double, float, integer, long
  and short tags; string for the string tag, for the date, time and timestamp tags (the
  values stay as they are, nothing is parsed), for both UUID flavors, and string for every
  tag that is not in the table.
\<close>

theorem C7_type_inference:
  "fieldType tn = spec_inferredType tn \<and>
   map type (getFields metadata) = map (\<lambda>m. spec_inferredType (fieldTypeName m)) metadata \<and>
   fieldType ''java.lang.Boolean'' = FieldType_boolean \<and>
   map fieldType [''java.lang.Byte'', ''java.lang.Double'', ''java.lang.Float'',
                  ''java.lang.Integer'', ''java.lang.Long'', ''java.lang.Short''] =
     replicate 6 FieldType_number \<and>
   map fieldType [''java.lang.String'', ''java.sql.Date'', ''java.sql.Time'',
                  ''java.sql.Timestamp'', ''java.lang.UUID'',
                  ''org.apache.ignite.lang.IgniteUuid''] =
     replicate 6 FieldType_string \<and>
   (tn \<notin> fst ` set spec_typeTable \<longrightarrow> fieldType tn = FieldType_string)"
proof -
  have table: "fieldType tn = spec_inferredType tn" for tn
    by (rule fieldType_table)
  have "map type (getFields metadata) = map (\<lambda>m. spec_inferredType (fieldTypeName m)) metadata"
    by (simp add: getFields_def comp_def table)
  moreover have "fieldType ''java.lang.Boolean'' = FieldType_boolean"
    by (simp add: fieldType_def)
  moreover have "map fieldType [''java.lang.Byte'', ''java.lang.Double'', ''java.lang.Float'',
                  ''java.lang.Integer'', ''java.lang.Long'', ''java.lang.Short''] =
     replicate 6 FieldType_number"
    by (simp add: fieldType_def numeral_eq_Suc)
  moreover have "map fieldType [''java.lang.String'', ''java.sql.Date'', ''java.sql.Time'',
                  ''java.sql.Timestamp'', ''java.lang.UUID'',
                  ''org.apache.ignite.lang.IgniteUuid''] =
     replicate 6 FieldType_string"
    by (simp add: fieldType_def numeral_eq_Suc)
  moreover have "tn \<notin> fst ` set spec_typeTable \<longrightarrow> fieldType tn = FieldType_string"
    by (simp add: fieldType_def spec_typeTable_def)
  ultimately show ?thesis
    using table by blast
qed

theorem C7_type_inference_witness:
  "''java.math.BigDecimal'' \<notin> fst ` set spec_typeTable \<and>
   fieldType ''java.math.BigDecimal'' = FieldType_string"
proof -
  have h: "''java.math.BigDecimal'' \<notin> fst ` set spec_typeTable"
    by (simp add: spec_typeTable_def)
  have "''java.math.BigDecimal'' \<notin> fst ` set spec_typeTable \<longrightarrow>
        fieldType ''java.math.BigDecimal'' = FieldType_string"
    using C7_type_inference [of "''java.math.BigDecimal''" "[]"] by blast
  with h show ?thesis by blast
qed

section \<open>Frames of successful executions\<close>

lemma foldl_addField:
  "frameRows fr = [] \<Longrightarrow>
   foldl (addField rt) fr fs =
     fr\<lparr>frameFields := frameFields fr @
          map (\<lambda>(i, f). labelField i f) (enumerate (length (frameFields fr)) fs)\<rparr>"
proof (induction fs arbitrary: fr)
  case Nil
  then show ?case by simp
next
  case (Cons f fs)
  let ?fr = "fr\<lparr>frameFields := frameFields fr @ [labelField (length (frameFields fr)) f]\<rparr>"
  have step: "addField rt fr f = ?fr"
    using Cons.prems by (simp add: addField_def)
  have rows: "frameRows ?fr = []"
    using Cons.prems by simp
  have "foldl (addField rt) fr (f # fs) = foldl (addField rt) ?fr fs"
    by (simp add: step)
  also have "\<dots> = ?fr\<lparr>frameFields := frameFields ?fr @
          map (\<lambda>(i, f). labelField i f) (enumerate (length (frameFields ?fr)) fs)\<rparr>"
    by (rule Cons.IH [OF rows])
  finally show ?case
    by simp
qed

lemma newFrame_fields:
  "newFrame rt r fs =
     \<lparr>frameRefId = r,
      frameFields = map (\<lambda>(i, f). labelField i f) (enumerate 0 fs),
      frameRows = []\<rparr>"
  by (simp add: newFrame_def foldl_addField)

lemma appendRow_fits:
  assumes "length row \<le> length (frameFields fr)"
  shows "appendRow rt fr row =
           (if frameFields fr = [] then fr
            else fr\<lparr>frameRows := frameRows fr @ [storeRow rt (frameFields fr) row]\<rparr>)"
  using assms by (simp add: appendRow_def extraFields_def Let_def)

lemma foldl_appendRow_fits:
  assumes "\<forall>row \<in> set rs. length row \<le> length (frameFields fr)"
  shows "foldl (appendRow rt) fr rs =
           (if frameFields fr = [] then fr
            else fr\<lparr>frameRows := frameRows fr @ map (storeRow rt (frameFields fr)) rs\<rparr>)"
  using assms
proof (induction rs arbitrary: fr)
  case Nil
  then show ?case by simp
next
  case (Cons row rs)
  then have fit: "length row \<le> length (frameFields fr)"
    by simp
  show ?case
  proof (cases "frameFields fr = []")
    case True
    with Cons show ?thesis
      by (simp add: appendRow_fits)
  next
    case False
    let ?fr = "fr\<lparr>frameRows := frameRows fr @ [storeRow rt (frameFields fr) row]\<rparr>"
    have "\<forall>row \<in> set rs. length row \<le> length (frameFields ?fr)"
      using Cons.prems by simp
    from Cons.IH [OF this] False fit show ?thesis
      by (simp add: appendRow_fits)
  qed
qed

lemma length_storeRow: "length (storeRow rt fs row) = length fs"
  by (simp add: storeRow_def)

lemma nth_storeRow:
  "i < length fs \<Longrightarrow> storeRow rt fs row ! i = storeValue rt (fs ! i) (rowValue row i)"
  by (simp add: storeRow_def nth_enumerate_eq)

lemma decimal_two: "decimal 2 = ''2''" "decimal (Suc (Suc 0)) = ''2''" "decimal (Suc 1) = ''2''"
  by code_simp+

text \<open>
  C6, as amended. For every successful execution response (\<open>successStatus == 0\<close> and
  \<open>error == ''\<close>) with \<open>N\<close> entries in \<open>fieldsMetadata\<close> and \<open>M\<close> rows in \<open>items\<close>, no row of
  \<open>items\<close> having more than \<open>N\<close> entries, the resulting frame carries the target's \<open>refId\<close>
  and has exactly \<open>N\<close> field descriptors, one per metadata entry in order, each with that
  entry's \<open>fieldName\<close> (the library's \<open>Field i\<close> where the \<open>fieldName\<close> is empty) and the type
  the inference switch gives its \<open>fieldTypeName\<close>, and \<open>M\<close> rows in source order (none when
  \<open>N = 0\<close>, a frame without fields having no rows), each of arity \<open>N\<close>: the value at
  position \<open>i\<close> of row \<open>j\<close> is the \<open>i\<close>-th value of the \<open>j\<close>-th row of \<open>items\<close>, \<open>undefined\<close>
  where that row is shorter, a string under a field that is not of type string being
  stored as the library parses it.
\<close>

theorem C6_success_frame:
  assumes "\<not> isError r" and "response r = Some p"
    and "length (fieldsMetadata p) = N" and "length (items p) = M"
    and "\<forall>row \<in> set (items p). length row \<le> N"
  shows "\<exists>frame. toFrame rt t r = Inr frame \<and>
           frameRefId frame = refId t \<and>
           length (frameFields frame) = N \<and>
           (\<forall>i<N. frameFields frame ! i =
                    \<lparr>name = (if fieldName (fieldsMetadata p ! i) = []
                             then ''Field '' @ decimal (i + 1)
                             else fieldName (fieldsMetadata p ! i)),
                     type = fieldType (fieldTypeName (fieldsMetadata p ! i))\<rparr>) \<and>
           length (frameRows frame) = (if N = 0 then 0 else M) \<and>
           (\<forall>row \<in> set (frameRows frame). length row = N) \<and>
           (\<forall>j<length (frameRows frame). \<forall>i<N.
              frameRows frame ! j ! i =
                storeValue rt (frameFields frame ! i) (rowValue (items p ! j) i))"
proof -
  let ?fs = "map (\<lambda>(i, f). labelField i f) (enumerate 0 (getFields (fieldsMetadata p)))"
  let ?new = "newFrame rt (refId t) (getFields (fieldsMetadata p))"
  let ?frame = "foldl (appendRow rt) ?new (items p)"
  have new: "?new = \<lparr>frameRefId = refId t, frameFields = ?fs, frameRows = []\<rparr>"
    by (rule newFrame_fields)
  have len: "length ?fs = N"
    using assms(3) by (simp add: getFields_def)
  have fits: "\<forall>row \<in> set (items p). length row \<le> length (frameFields ?new)"
    using assms(5) len by (simp add: new)
  have frame: "?frame = (if ?fs = [] then ?new
                          else ?new\<lparr>frameRows := map (storeRow rt ?fs) (items p)\<rparr>)"
    using foldl_appendRow_fits [OF fits, of rt] by (simp add: new)
  have result: "toFrame rt t r = Inr ?frame"
    using assms(1,2) by (simp add: toFrame_def isError_def Let_def)
  have ref: "frameRefId ?frame = refId t"
    by (simp add: frame) (simp add: new)
  have fields: "frameFields ?frame = ?fs"
    by (simp add: frame) (simp add: new)
  have empty: "?fs = [] \<longleftrightarrow> N = 0"
    using len length_0_conv by metis
  have rows: "frameRows ?frame = (if N = 0 then [] else map (storeRow rt ?fs) (items p))"
    unfolding frame empty by (simp add: new)
  have nth: "\<forall>i<N. ?fs ! i =
                    \<lparr>name = (if fieldName (fieldsMetadata p ! i) = []
                             then ''Field '' @ decimal (i + 1)
                             else fieldName (fieldsMetadata p ! i)),
                     type = fieldType (fieldTypeName (fieldsMetadata p ! i))\<rparr>"
    using assms(3) by (simp add: getFields_def nth_enumerate_eq labelField_def)
  have count: "length (frameRows ?frame) = (if N = 0 then 0 else M)"
    using assms(4) by (simp add: rows)
  have arity: "\<forall>row \<in> set (frameRows ?frame). length row = N"
    using len by (auto simp: rows length_storeRow)
  have cells: "\<forall>j<length (frameRows ?frame). \<forall>i<N.
              frameRows ?frame ! j ! i =
                storeValue rt (frameFields ?frame ! i) (rowValue (items p ! j) i)"
    unfolding fields using len by (auto simp: rows nth_storeRow)
  from result ref fields len nth count arity cells show ?thesis
    by (intro exI [of _ ?frame]) simp
qed

theorem C6_success_frame_witness:
  "\<not> isError shortReply \<and> response shortReply = Some shortPayload \<and>
   length (fieldsMetadata shortPayload) = 2 \<and> length (items shortPayload) = 2 \<and>
   map length (items shortPayload) = [2, 1] \<and>
   toFrame (scripted []) seriesTarget shortReply =
     Inr \<lparr>frameRefId = ''D'',
           frameFields = [\<lparr>name = ''NAME'', type = FieldType_string\<rparr>,
                          \<lparr>name = ''AGE'', type = FieldType_number\<rparr>],
           frameRows = [[JStr ''Alice'', JNum 30], [JStr ''Bob'', JUndefined]]\<rparr>"
proof -
  let ?rt = "scripted []"
  have h1: "\<not> isError shortReply"
    by (simp add: scenario_defs isError_def)
  have h2: "response shortReply = Some shortPayload"
    by (simp add: scenario_defs)
  have h3: "length (fieldsMetadata shortPayload) = 2"
    by (simp add: scenario_defs)
  have h4: "length (items shortPayload) = 2"
    by (simp add: scenario_defs)
  have h5: "\<forall>row \<in> set (items shortPayload). length row \<le> 2"
    by (simp add: scenario_defs)
  have h5': "map length (items shortPayload) = [2, 1]"
    by (simp add: scenario_defs)
  from C6_success_frame [OF h1 h2 h3 h4 h5, of ?rt seriesTarget]
  obtain frame where f: "toFrame ?rt seriesTarget shortReply = Inr frame"
      and ref: "frameRefId frame = refId seriesTarget"
      and nf: "length (frameFields frame) = 2"
      and fs: "\<forall>i<2. frameFields frame ! i =
                    \<lparr>name = (if fieldName (fieldsMetadata shortPayload ! i) = []
                             then ''Field '' @ decimal (i + 1)
                             else fieldName (fieldsMetadata shortPayload ! i)),
                     type = fieldType (fieldTypeName (fieldsMetadata shortPayload ! i))\<rparr>"
      and nr: "length (frameRows frame) = (if (2::nat) = 0 then 0 else 2)"
      and ar: "\<forall>row \<in> set (frameRows frame). length row = 2"
      and cs: "\<forall>j<length (frameRows frame). \<forall>i<2.
              frameRows frame ! j ! i =
                storeValue ?rt (frameFields frame ! i) (rowValue (items shortPayload ! j) i)"
    by blast
  have f0: "frameFields frame ! 0 = \<lparr>name = ''NAME'', type = FieldType_string\<rparr>"
    using fs by (simp add: scenario_defs fieldType_def)
  have f1: "frameFields frame ! 1 = \<lparr>name = ''AGE'', type = FieldType_number\<rparr>"
    using fs by (simp add: scenario_defs fieldType_def)
  have fields: "frameFields frame = [\<lparr>name = ''NAME'', type = FieldType_string\<rparr>,
                                      \<lparr>name = ''AGE'', type = FieldType_number\<rparr>]"
    using nf f0 f1 by (intro nth_equalityI) (auto simp: less_Suc_eq numeral_2_eq_2)
  have nr2: "length (frameRows frame) = 2"
    using nr by simp
  have cell: "frameRows frame ! j ! i =
                storeValue ?rt (frameFields frame ! i) (rowValue (items shortPayload ! j) i)"
    if "j < 2" "i < 2" for j i
    using cs nr2 that by simp
  have c00: "frameRows frame ! 0 ! 0 = JStr ''Alice''"
    using cell [of 0 0] by (simp add: f0 scenario_defs storeValue_def rowValue_def)
  have c01: "frameRows frame ! 0 ! 1 = JNum 30"
    using cell [of 0 1] by (simp add: f1 scenario_defs storeValue_def rowValue_def)
  have c10: "frameRows frame ! 1 ! 0 = JStr ''Bob''"
    using cell [of 1 0] by (simp add: f0 scenario_defs storeValue_def rowValue_def)
  have c11: "frameRows frame ! 1 ! 1 = JUndefined"
    using cell [of 1 1] by (simp add: f1 scenario_defs storeValue_def rowValue_def)
  have a0: "length (frameRows frame ! 0) = 2" and a1: "length (frameRows frame ! 1) = 2"
    using ar nr2 by (simp_all add: nth_mem)
  have r0: "frameRows frame ! 0 = [JStr ''Alice'', JNum 30]"
    using a0 c00 c01 by (intro nth_equalityI) (auto simp: less_Suc_eq numeral_2_eq_2)
  have r1: "frameRows frame ! 1 = [JStr ''Bob'', JUndefined]"
    using a1 c10 c11 by (intro nth_equalityI) (auto simp: less_Suc_eq numeral_2_eq_2)
  have rows: "frameRows frame = [[JStr ''Alice'', JNum 30], [JStr ''Bob'', JUndefined]]"
    using nr2 r0 r1 by (intro nth_equalityI) (auto simp: less_Suc_eq numeral_2_eq_2)
  have "frame = \<lparr>frameRefId = ''D'',
           frameFields = [\<lparr>name = ''NAME'', type = FieldType_string\<rparr>,
                          \<lparr>name = ''AGE'', type = FieldType_number\<rparr>],
           frameRows = [[JStr ''Alice'', JNum 30], [JStr ''Bob'', JUndefined]]\<rparr>"
    using ref fields rows by (cases frame) (simp add: seriesTarget_def)
  with f h1 h2 h3 h4 h5' show ?thesis
    by simp
qed

text \<open>
  The claim as written promises exactly \<open>N\<close> field descriptors and rows of arity \<open>N\<close> for
  every successful response. The code hands each row to \<open>appendRow\<close> without comparing
  its length with the metadata: for one metadata entry and a row of two values the frame
  gets a second field, \<open>Field 2\<close>, and its row has arity two.
\<close>

theorem C6_ragged_row_counterexample:
  "\<not> isError raggedReply \<and> response raggedReply = Some raggedPayload \<and>
   length (fieldsMetadata raggedPayload) = 1 \<and> length (items raggedPayload) = 1 \<and>
   toFrame (scripted []) personTarget raggedReply =
     Inr \<lparr>frameRefId = ''A'',
           frameFields = [\<lparr>name = ''NAME'', type = FieldType_string\<rparr>,
                          \<lparr>name = ''Field 2'', type = FieldType_number\<rparr>],
           frameRows = [[JStr ''Alice'', JNum 30]]\<rparr> \<and>
   length [\<lparr>name = ''NAME'', type = FieldType_string\<rparr>,
           \<lparr>name = ''Field 2'', type = FieldType_number\<rparr>] \<noteq> (1::nat)"
  by (simp add: scenario_defs isError_def toFrame_def getFields_def fieldType_def frame_defs
        enumerate_eq_zip decimal_two)

section \<open>The connectivity probe\<close>

text \<open>
  The probe never throws (it is a total function into results). It reports success exactly
  when the request resolves, the response has \<open>data\<close>, and \<open>data.error === null\<close> or
  \<open>data.successStatus === 0\<close>; otherwise the result is a failure whose message is the
  \<open>message\<close> property of what was thrown.
\<close>

lemma testDatasource_success_iff:
  "status (testDatasource ds rt) = ''success'' \<longleftrightarrow>
     (\<exists>res d. fetch rt 0 (jsToString (url ds) @ ''/ignite?cmd=version'') = Inr res \<and>
              data res = Some d \<and> (error d = JNull \<or> successStatus d = JNum 0))"
  by (auto simp: testDatasource_def tryVersion_def DataSource_get_def Let_def
        split: sum.splits option.splits if_splits)

lemma testDatasource_failure:
  "status (testDatasource ds rt) \<noteq> ''success'' \<Longrightarrow>
   \<exists>err. tryVersion ds rt = Inl err \<and>
         testDatasource ds rt = \<lparr>status = ''failure'', message = messageOf err\<rparr>"
  by (auto simp: testDatasource_def tryVersion_def DataSource_get_def Let_def
        split: sum.splits option.splits if_splits)

lemma testDatasource_rejected:
  "fetch rt 0 (jsToString (url ds) @ ''/ignite?cmd=version'') = Inl err \<Longrightarrow>
   testDatasource ds rt = \<lparr>status = ''failure'', message = messageOf err\<rparr>"
  by (simp add: testDatasource_def tryVersion_def DataSource_get_def Let_def)

lemma testDatasource_unsuccessful:
  "fetch rt 0 (jsToString (url ds) @ ''/ignite?cmd=version'') = Inr res \<Longrightarrow>
   data res = Some d \<Longrightarrow> error d \<noteq> JNull \<Longrightarrow> successStatus d \<noteq> JNum 0 \<Longrightarrow>
   testDatasource ds rt = \<lparr>status = ''failure'', message = JUndefined\<rparr>"
  by (simp add: testDatasource_def tryVersion_def DataSource_get_def Let_def)

text \<open>
  C10. The claim is that every failure result of the probe carries the message text of the
  underlying error. For a version-check response that is not successful the code throws the
  string \<open>'Failed to connect to Apache Ignite.'\<close> and the \<open>catch\<close> block reads
  \<open>err.message\<close> from that string, which is \<open>undefined\<close>: the failure result has no message
  text. A rejected request (whose rejection has a \<open>message\<close>) and a successful response
  behave as claimed.
\<close>

theorem C10_failure_message_lost:
  "testDatasource ignite (scripted [Inr (versionReply (JNum 1) (JStr ''Unauthorized''))]) =
     \<lparr>status = ''failure'', message = JUndefined\<rparr> \<and>
   testDatasource ignite (scripted [Inl networkError]) =
     \<lparr>status = ''failure'', message = JStr ''Network Error''\<rparr> \<and>
   testDatasource ignite (scripted [Inr (versionReply (JNum 0) JNull)]) =
     \<lparr>status = ''success'', message = JStr ''Successfully connected to Apache Ignite.''\<rparr>"
  by (simp add: scenario_defs testDatasource_def tryVersion_def DataSource_get_def)

section \<open>The \<open>qry\<close> parameter\<close>

lemma replaceFirst_absent:
  assumes "pat \<noteq> []" and "\<forall>j<length s. \<not> prefix pat (drop j s)"
  shows "replaceFirst pat rep s = s"
  using assms(2)
proof (induction s)
  case Nil
  with assms(1) show ?case by simp
next
  case (Cons c cs)
  from Cons.prems have "\<not> prefix pat (drop 0 (c # cs))"
    by blast
  then have here: "\<not> prefix pat (c # cs)"
    by simp
  have "\<forall>j<length cs. \<not> prefix pat (drop j cs)"
  proof (intro allI impI)
    fix j assume "j < length cs"
    then have "Suc j < length (c # cs)" by simp
    with Cons.prems have "\<not> prefix pat (drop (Suc j) (c # cs))" by blast
    then show "\<not> prefix pat (drop j cs)" by simp
  qed
  with Cons.IH here show ?case by simp
qed

lemma replaceFirst_first:
  assumes "pat \<noteq> []" and "\<forall>j<length a. \<not> prefix pat (drop j (a @ pat @ b))"
  shows "replaceFirst pat rep (a @ pat @ b) = a @ rep @ b"
  using assms(2)
proof (induction a)
  case Nil
  from assms(1) obtain c cs where pat: "pat = c # cs"
    by (cases pat) auto
  have "replaceFirst pat rep (pat @ b) = rep @ drop (length pat) (pat @ b)"
    unfolding pat by simp
  then show ?case by simp
next
  case (Cons c cs)
  from Cons.prems have "\<not> prefix pat (drop 0 ((c # cs) @ pat @ b))"
    by blast
  then have here: "\<not> prefix pat (c # cs @ pat @ b)"
    by simp
  have "\<forall>j<length cs. \<not> prefix pat (drop j (cs @ pat @ b))"
  proof (intro allI impI)
    fix j assume "j < length cs"
    then have "Suc j < length (c # cs)" by simp
    with Cons.prems have "\<not> prefix pat (drop (Suc j) ((c # cs) @ pat @ b))" by blast
    then show "\<not> prefix pat (drop j (cs @ pat @ b))" by simp
  qed
  with Cons.IH here show ?case by simp
qed

lemma hexDigit_mem: "hexDigit d \<in> set ''0123456789ABCDEF''"
  unfolding hexDigit_def by (rule nth_mem) simp

lemma hexDigit_not_percent: "hexDigit d \<noteq> CHR ''%''"
  using hexDigit_mem [of d] by auto

lemma hexDigit_eq_iff: "hexDigit x = hexDigit y \<longleftrightarrow> x mod 16 = y mod 16"
  unfolding hexDigit_def
  by (rule nth_eq_iff_index_eq) simp_all

lemma hexDigit_two: "hexDigit 2 = CHR ''2''"
  by (simp add: hexDigit_def)

lemma hexDigit_zero: "hexDigit 0 = CHR ''0''"
  by (simp add: hexDigit_def)

lemma percentEncode_space: "percentEncode CHR '' '' = ''%20''"
  by (simp add: percentEncode_def uriUnreserved_def hexDigit_def)

lemma space_from_digits:
  assumes "hexDigit ((of_char c :: nat) div 16) = CHR ''2''"
    and "hexDigit ((of_char c :: nat) mod 16) = CHR ''0''"
  shows "c = CHR '' ''"
proof -
  have bound: "(of_char c :: nat) < 256"
    by simp
  from assms(1) have "((of_char c :: nat) div 16) mod 16 = 2 mod 16"
    by (simp only: hexDigit_two [symmetric] hexDigit_eq_iff)
  moreover from bound have "(of_char c :: nat) div 16 < 16"
    by arith
  ultimately have hi: "(of_char c :: nat) div 16 = 2"
    by simp
  from assms(2) have "((of_char c :: nat) mod 16) mod 16 = 0 mod 16"
    by (simp only: hexDigit_zero [symmetric] hexDigit_eq_iff)
  then have lo: "(of_char c :: nat) mod 16 = 0"
    by simp
  have "(of_char c :: nat) = 16 * ((of_char c :: nat) div 16) + (of_char c :: nat) mod 16"
    by simp
  with hi lo have "(of_char c :: nat) = of_char CHR '' ''"
    by simp
  then show ?thesis
    by (simp only: of_char_eq_iff)
qed

lemma replaceFirst_percentEncode:
  assumes "c \<noteq> CHR '' ''"
  shows "replaceFirst ''%20'' ''+'' (percentEncode c @ rest) =
           percentEncode c @ replaceFirst ''%20'' ''+'' rest"
proof (cases "uriUnreserved c")
  case True
  then have "c \<noteq> CHR ''%''"
    by (auto simp: uriUnreserved_def)
  with True show ?thesis
    by (simp add: percentEncode_def)
next
  case False
  let ?h = "hexDigit ((of_char c :: nat) div 16)"
  let ?l = "hexDigit ((of_char c :: nat) mod 16)"
  from assms space_from_digits [of c] have "\<not> (?h = CHR ''2'' \<and> ?l = CHR ''0'')"
    by blast
  moreover have "?h \<noteq> CHR ''%''" "?l \<noteq> CHR ''%''"
    by (rule hexDigit_not_percent)+
  ultimately show ?thesis
    using False by (auto simp: percentEncode_def)
qed

lemma replaceFirst_encoded_no_space:
  assumes "CHR '' '' \<notin> set a"
  shows "replaceFirst ''%20'' ''+'' (encodeURIComponent_utf8 a @ rest) =
           encodeURIComponent_utf8 a @ replaceFirst ''%20'' ''+'' rest"
  using assms
proof (induction a)
  case Nil
  show ?case by (simp add: encodeURIComponent_utf8_def)
next
  case (Cons c cs)
  then have c: "c \<noteq> CHR '' ''" and cs: "CHR '' '' \<notin> set cs"
    by auto
  have "encodeURIComponent_utf8 (c # cs) @ rest =
          percentEncode c @ (encodeURIComponent_utf8 cs @ rest)"
    by (simp add: encodeURIComponent_utf8_def)
  then have "replaceFirst ''%20'' ''+'' (encodeURIComponent_utf8 (c # cs) @ rest) =
          percentEncode c @ replaceFirst ''%20'' ''+'' (encodeURIComponent_utf8 cs @ rest)"
    using replaceFirst_percentEncode [OF c, of "encodeURIComponent_utf8 cs @ rest"] by simp
  also have "\<dots> = percentEncode c @ encodeURIComponent_utf8 cs @ replaceFirst ''%20'' ''+'' rest"
    using Cons.IH [OF cs] by simp
  also have "\<dots> = encodeURIComponent_utf8 (c # cs) @ replaceFirst ''%20'' ''+'' rest"
    by (simp add: encodeURIComponent_utf8_def)
  finally show ?case .
qed

lemma replaceFirst_encoded_first_space:
  assumes "CHR '' '' \<notin> set a"
  shows "replaceFirst ''%20'' ''+'' (encodeURIComponent_utf8 (a @ '' '' @ b)) =
           encodeURIComponent_utf8 a @ ''+'' @ encodeURIComponent_utf8 b"
proof -
  have "encodeURIComponent_utf8 (a @ '' '' @ b) =
          encodeURIComponent_utf8 a @ ''%20'' @ encodeURIComponent_utf8 b"
    by (simp add: encodeURIComponent_utf8_def percentEncode_space)
  moreover have "replaceFirst ''%20'' ''+'' (''%20'' @ encodeURIComponent_utf8 b) =
                   ''+'' @ encodeURIComponent_utf8 b"
    by simp
  ultimately show ?thesis
    using replaceFirst_encoded_no_space [OF assms, of "''%20'' @ encodeURIComponent_utf8 b"]
    by simp
qed


lemma replaceFirst_at:
  assumes "pat \<noteq> []" and "firstOccurrence pat s j"
  shows "replaceFirst pat rep s = take j s @ rep @ drop (j + length pat) s"
proof -
  from assms(2) have here: "prefix pat (drop j s)"
    and before: "\<forall>i<j. \<not> prefix pat (drop i s)"
    by (auto simp: firstOccurrence_def occursAt_def list_all_iff)
  from here obtain rest where rest: "drop j s = pat @ rest"
    by (auto simp: prefix_def)
  with assms(1) have j: "j \<le> length s"
    by (cases "j \<le> length s") auto
  have s: "s = take j s @ pat @ rest"
    using rest by (metis append_take_drop_id)
  have "drop (j + length pat) s = drop (length pat) (drop j s)"
    by (simp add: add.commute)
  with rest have tail: "drop (j + length pat) s = rest"
    by simp
  have "\<forall>i<length (take j s). \<not> prefix pat (drop i (take j s @ pat @ rest))"
    using before j s by simp
  then have "replaceFirst pat rep (take j s @ pat @ rest) = take j s @ rep @ rest"
    by (rule replaceFirst_first [OF assms(1)])
  with s tail show ?thesis
    by simp
qed

lemma replaceFirst_nowhere:
  assumes "pat \<noteq> []" and "noOccurrence pat s"
  shows "replaceFirst pat rep s = s"
proof -
  from assms(2) have "\<forall>j<length s. \<not> prefix pat (drop j s)"
    by (simp add: noOccurrence_def occursAt_def list_all_iff)
  with assms(1) show ?thesis
    by (rule replaceFirst_absent)
qed

lemma encode_person:
  "encodeURIComponent_utf8 ''select * from person'' = ''select%20*%20from%20person''"
  by (simp add: encodeURIComponent_utf8_def percentEncode_def uriUnreserved_def hexDigit_def)

lemma encode_count: "encodeURIComponent_utf8 ''select(1)'' = ''select(1)''"
  by (simp add: encodeURIComponent_utf8_def percentEncode_def uriUnreserved_def hexDigit_def)

text \<open>
  C9. For every target's SQL text, the execution URL ends in \<open>&qry=\<close> followed by the
  percent-encoding of the text in which only the first occurrence of \<open>%20\<close> is replaced by
  \<open>+\<close>: the encoding up to that occurrence, \<open>+\<close>, and the rest of the encoding unchanged,
  so every later space remains \<open>%20\<close>; an encoding without \<open>%20\<close> is passed on as it is.
  With the standard encoder the first occurrence of \<open>%20\<close> is the first space of the text.
\<close>

theorem C9_first_space_only:
  assumes "query t = Some q"
  shows "fst (fst (execTarget ds rt k t)) =
           jsToString (url ds) @ ''/ignite?cmd=qryfldexe&cacheName='' @
           jsToString (cacheName t) @ ''&pageSize=1024&qry='' @ qryParameter rt t \<and>
         (firstOccurrence ''%20'' (encodeURIComponent rt q) j \<longrightarrow>
            qryParameter rt t =
              take j (encodeURIComponent rt q) @ ''+'' @ drop (j + 3) (encodeURIComponent rt q)) \<and>
         (noOccurrence ''%20'' (encodeURIComponent rt q) \<longrightarrow>
            qryParameter rt t = encodeURIComponent rt q) \<and>
         (encodeURIComponent rt = encodeURIComponent_utf8 \<and> q = a @ '' '' @ b \<and>
          CHR '' '' \<notin> set a \<longrightarrow>
            qryParameter rt t =
              encodeURIComponent_utf8 a @ ''+'' @ encodeURIComponent_utf8 b)"
proof -
  have p: "qryParameter rt t = replaceFirst ''%20'' ''+'' (encodeURIComponent rt q)"
    using assms by (simp add: qryParameter_def)
  have "firstOccurrence ''%20'' (encodeURIComponent rt q) j \<longrightarrow>
          qryParameter rt t =
            take j (encodeURIComponent rt q) @ ''+'' @ drop (j + 3) (encodeURIComponent rt q)"
    unfolding p using replaceFirst_at [of "''%20''" "encodeURIComponent rt q" j "''+''"]
    by (simp add: numeral_3_eq_3)
  moreover have "noOccurrence ''%20'' (encodeURIComponent rt q) \<longrightarrow>
          qryParameter rt t = encodeURIComponent rt q"
    unfolding p using replaceFirst_nowhere [of "''%20''" "encodeURIComponent rt q" "''+''"]
    by simp
  moreover have "encodeURIComponent rt = encodeURIComponent_utf8 \<and> q = a @ '' '' @ b \<and>
          CHR '' '' \<notin> set a \<longrightarrow>
            qryParameter rt t =
              encodeURIComponent_utf8 a @ ''+'' @ encodeURIComponent_utf8 b"
    unfolding p using replaceFirst_encoded_first_space [of a b]
    by auto
  ultimately show ?thesis
    using sent_execTarget [of ds rt k t] by blast
qed

theorem C9_first_space_only_witness:
  "query personTarget = Some ''select * from person'' \<and>
   firstOccurrence ''%20'' (encodeURIComponent (scripted []) ''select * from person'') 6 \<and>
   CHR '' '' \<notin> set ''select'' \<and>
   fst (fst (execTarget ignite (scripted []) 1 personTarget)) =
     ''http://localhost:8080/ignite?cmd=qryfldexe&cacheName=person&pageSize=1024&qry=select+*%20from%20person'' \<and>
   qryParameter (scripted []) personTarget =
     encodeURIComponent_utf8 ''select'' @ ''+'' @ encodeURIComponent_utf8 ''* from person'' \<and>
   query countTarget = Some ''select(1)'' \<and>
   noOccurrence ''%20'' (encodeURIComponent (scripted []) ''select(1)'') \<and>
   qryParameter (scripted []) countTarget = ''select(1)''"
proof -
  let ?rt = "scripted []"
  have enc: "encodeURIComponent ?rt = encodeURIComponent_utf8"
    by (simp add: scripted_def)
  have q1: "query personTarget = Some ''select * from person''"
    by (simp add: personTarget_def)
  have f1: "firstOccurrence ''%20'' (encodeURIComponent ?rt ''select * from person'') 6"
    unfolding enc encode_person by (simp add: firstOccurrence_def occursAt_def upt_rec)
  have s1: "CHR '' '' \<notin> set ''select''"
    by simp
  have q2: "query countTarget = Some ''select(1)''"
    by (simp add: countTarget_def)
  have n2: "noOccurrence ''%20'' (encodeURIComponent ?rt ''select(1)'')"
    unfolding enc encode_count by (simp add: noOccurrence_def occursAt_def upt_rec)
  have split: "''select * from person'' = ''select'' @ '' '' @ ''* from person''"
    by simp
  note person = C9_first_space_only [OF q1, of ignite ?rt 1 6 "''select''" "''* from person''"]
  have p1: "fst (fst (execTarget ignite ?rt 1 personTarget)) =
           jsToString (url ignite) @ ''/ignite?cmd=qryfldexe&cacheName='' @
           jsToString (cacheName personTarget) @ ''&pageSize=1024&qry='' @
           qryParameter ?rt personTarget"
    using person by (rule conjunct1)
  have p2: "qryParameter ?rt personTarget =
           take 6 (encodeURIComponent ?rt ''select * from person'') @ ''+'' @
           drop (6 + 3) (encodeURIComponent ?rt ''select * from person'')"
    using person f1 by blast
  have p3: "qryParameter ?rt personTarget =
           encodeURIComponent_utf8 ''select'' @ ''+'' @ encodeURIComponent_utf8 ''* from person''"
    using person enc split s1 by blast
  have u1: "fst (fst (execTarget ignite ?rt 1 personTarget)) =
     ''http://localhost:8080/ignite?cmd=qryfldexe&cacheName=person&pageSize=1024&qry=select+*%20from%20person''"
    unfolding p1 p2 enc encode_person by (simp add: ignite_def personTarget_def)
  from C9_first_space_only [OF q2, of ignite ?rt 1 0 "[]" "[]"] n2
  have "qryParameter ?rt countTarget = encodeURIComponent ?rt ''select(1)''"
    by simp
  then have u2: "qryParameter ?rt countTarget = ''select(1)''"
    unfolding enc encode_count .
  from q1 f1 s1 u1 p3 q2 n2 u2 show ?thesis
    by blast
qed

end
